theory Spec2Isabelle
  imports Complex_Main
begin

section \<open>Python text primitives\<close>

text \<open>
  A Python \<open>str\<close> is a sequence of Unicode code points; it is modelled as a list of
  natural numbers (scalar values, as a UTF-8 request body carries them). String literals
  of the source are ASCII and are written as HOL strings converted by \<open>py\<close>.

  The behaviour of \<open>str.lower\<close>, \<open>str.upper\<close>, \<open>\w\<close>, \<open>\s\<close> and \<open>\d\<close> is written out for
  the ASCII range. Beyond it the interpreter consults the Unicode character database, which
  is not part of the repository: it is the parameter \<open>U\<close> of every function that needs it.
  Floating-point numbers are modelled as exact reals.
\<close>

type_synonym pystr = "nat list"

definition py :: "string \<Rightarrow> pystr" where
  "py s = map of_char s"

record unicode =
  u_lower :: "pystr \<Rightarrow> pystr"
  u_upper :: "pystr \<Rightarrow> pystr"
  u_alnum :: "nat \<Rightarrow> bool"
  u_space :: "nat \<Rightarrow> bool"
  u_decimal :: "nat \<Rightarrow> bool"

text \<open>A table for texts that stay inside ASCII: nothing beyond it is a letter, a digit or a space.\<close>

definition ascii_only :: unicode where
  "ascii_only = \<lparr>u_lower = (\<lambda>s. s), u_upper = (\<lambda>s. s), u_alnum = (\<lambda>c. False),
     u_space = (\<lambda>c. False), u_decimal = (\<lambda>c. False)\<rparr>"

definition ascii_lower :: "nat \<Rightarrow> nat" where
  "ascii_lower c = (if 65 \<le> c \<and> c \<le> 90 then c + 32 else c)"

definition lower :: "unicode \<Rightarrow> pystr \<Rightarrow> pystr" where
  "lower U s = (if list_all (\<lambda>c. c < 128) s then map ascii_lower s else u_lower U s)"

definition ascii_upper :: "nat \<Rightarrow> nat" where
  "ascii_upper c = (if 97 \<le> c \<and> c \<le> 122 then c - 32 else c)"

definition upper :: "unicode \<Rightarrow> pystr \<Rightarrow> pystr" where
  "upper U s = (if list_all (\<lambda>c. c < 128) s then map ascii_upper s else u_upper U s)"

text \<open>
  The entries of the Unicode tables for texts made of ASCII characters and the dotless
  small letter i (code point 305): it is a letter, its upper-case form is the ASCII
  letter I, and lower-casing leaves it as it is.
\<close>

definition dotless_i :: unicode where
  "dotless_i = \<lparr>u_lower = map ascii_lower,
     u_upper = map (\<lambda>c. if c = 305 then 73 else ascii_upper c),
     u_alnum = (\<lambda>c. c = 305), u_space = (\<lambda>c. False), u_decimal = (\<lambda>c. False)\<rparr>"

definition is_digit :: "unicode \<Rightarrow> nat \<Rightarrow> bool" where
  "is_digit U c = (if c < 128 then 48 \<le> c \<and> c \<le> 57 else u_decimal U c)"

definition is_word :: "unicode \<Rightarrow> nat \<Rightarrow> bool" where
  "is_word U c =
     (if c < 128
      then (48 \<le> c \<and> c \<le> 57) \<or> (65 \<le> c \<and> c \<le> 90) \<or> c = 95 \<or> (97 \<le> c \<and> c \<le> 122)
      else u_alnum U c)"

definition is_space :: "unicode \<Rightarrow> nat \<Rightarrow> bool" where
  "is_space U c =
     (if c < 128 then (9 \<le> c \<and> c \<le> 13) \<or> (28 \<le> c \<and> c \<le> 32) else u_space U c)"

text \<open>\<open>s.strip()\<close>: leading and trailing whitespace removed.\<close>

definition strip :: "unicode \<Rightarrow> pystr \<Rightarrow> pystr" where
  "strip U s = rev (dropWhile (is_space U) (rev (dropWhile (is_space U) s)))"

text \<open>\<open>s.split()\<close>: the maximal runs of non-whitespace characters.\<close>

fun split_acc :: "unicode \<Rightarrow> pystr \<Rightarrow> pystr \<Rightarrow> pystr list" where
  "split_acc U cur [] = (if cur = [] then [] else [rev cur])"
| "split_acc U cur (c # cs) =
     (if is_space U c
      then (if cur = [] then split_acc U [] cs else rev cur # split_acc U [] cs)
      else split_acc U (c # cur) cs)"

definition split :: "unicode \<Rightarrow> pystr \<Rightarrow> pystr list" where
  "split U s = split_acc U [] s"

text \<open>\<open>w in s\<close> on strings: \<open>w\<close> occurs as a contiguous substring of \<open>s\<close>.\<close>

fun contains :: "pystr \<Rightarrow> pystr \<Rightarrow> bool" where
  "contains [] w = (w = [])"
| "contains (c # cs) w = (take (length w) (c # cs) = w \<or> contains cs w)"

section \<open>Regular expressions of the \<open>re\<close> module\<close>

text \<open>
  The fragment of the regular-expression language that the source's patterns use:
  literals, the classes \<open>\d \w \s\<close> and bracket sets, the assertion \<open>\b\<close>, concatenation,
  alternation, \<open>?\<close>, and the greedy bounded repetitions \<open>{m}\<close>, \<open>{m,}\<close>, \<open>+\<close> of a
  character class.
\<close>

datatype cset = CDigit | CWord | CSpace | COne nat | CUnion cset cset | CNot cset

fun in_cset :: "unicode \<Rightarrow> cset \<Rightarrow> nat \<Rightarrow> bool" where
  "in_cset U CDigit c = is_digit U c"
| "in_cset U CWord c = is_word U c"
| "in_cset U CSpace c = is_space U c"
| "in_cset U (COne d) c = (c = d)"
| "in_cset U (CUnion a b) c = (in_cset U a c \<or> in_cset U b c)"
| "in_cset U (CNot a) c = (\<not> in_cset U a c)"

datatype regex =
    Eps
  | Cls cset
  | WordB
  | Seq regex regex
  | Alt regex regex
  | Opt regex
  | Rep cset nat "nat option"

text \<open>A literal string, and the pattern \<open>\b...\b\<close> around a body.\<close>

fun lit :: "string \<Rightarrow> regex" where
  "lit [] = Eps"
| "lit [c] = Cls (COne (of_char c))"
| "lit (c # cs) = Seq (Cls (COne (of_char c))) (lit cs)"

definition wb :: "regex \<Rightarrow> regex" where
  "wb r = Seq WordB (Seq r WordB)"

text \<open>
  \<open>\b\<close> holds between two positions when exactly one of the neighbouring characters is
  a word character; the start and the end of the text count as non-word.
\<close>

definition word_opt :: "unicode \<Rightarrow> nat option \<Rightarrow> bool" where
  "word_opt U p = (case p of None \<Rightarrow> False | Some c \<Rightarrow> is_word U c)"

definition first_opt :: "pystr \<Rightarrow> nat option" where
  "first_opt s = (case s of [] \<Rightarrow> None | c # _ \<Rightarrow> Some c)"

definition boundary :: "unicode \<Rightarrow> nat option \<Rightarrow> pystr \<Rightarrow> bool" where
  "boundary U p s = (word_opt U p \<noteq> word_opt U (first_opt s))"

text \<open>The character before the position reached after \<open>n\<close> characters of \<open>s\<close>.\<close>

definition prev_after :: "nat option \<Rightarrow> pystr \<Rightarrow> nat \<Rightarrow> nat option" where
  "prev_after p s n = (if n = 0 \<or> length s < n then p else Some (s ! (n - 1)))"

text \<open>
  \<open>ends U r p s\<close>: the lengths of the matches of \<open>r\<close> that start at the head of \<open>s\<close>,
  where \<open>p\<close> is the character before it, in the order in which the backtracking matcher
  tries them (greedy repetition first, alternatives left to right).
\<close>

fun ends :: "unicode \<Rightarrow> regex \<Rightarrow> nat option \<Rightarrow> pystr \<Rightarrow> nat list" where
  "ends U Eps p s = [0]"
| "ends U (Cls cs) p s = (case s of [] \<Rightarrow> [] | c # _ \<Rightarrow> if in_cset U cs c then [1] else [])"
| "ends U WordB p s = (if boundary U p s then [0] else [])"
| "ends U (Seq a b) p s =
     concat (map (\<lambda>n. map (\<lambda>m. n + m) (ends U b (prev_after p s n) (drop n s))) (ends U a p s))"
| "ends U (Alt a b) p s = ends U a p s @ ends U b p s"
| "ends U (Opt a) p s = ends U a p s @ [0]"
| "ends U (Rep cs lo hi) p s =
     (let run = length (takeWhile (in_cset U cs) s);
          top = (case hi of None \<Rightarrow> run | Some h \<Rightarrow> min h run)
      in rev [lo ..< Suc top])"

text \<open>
  \<open>re.search\<close>: the first start position with a match, and there the first match in
  backtracking order. The result is the start index and the matched text (\<open>group()\<close>).
\<close>

fun search_from :: "unicode \<Rightarrow> regex \<Rightarrow> nat option \<Rightarrow> nat \<Rightarrow> pystr \<Rightarrow> (nat \<times> pystr) option" where
  "search_from U r p i [] = (case ends U r p [] of [] \<Rightarrow> None | n # _ \<Rightarrow> Some (i, []))"
| "search_from U r p i (c # cs) =
     (case ends U r p (c # cs) of
        [] \<Rightarrow> search_from U r (Some c) (Suc i) cs
      | n # _ \<Rightarrow> Some (i, take n (c # cs)))"

definition search :: "unicode \<Rightarrow> regex \<Rightarrow> pystr \<Rightarrow> (nat \<times> pystr) option" where
  "search U r s = search_from U r None 0 s"

text \<open>
  \<open>re.finditer\<close> and \<open>re.sub\<close> scan from left to right for non-overlapping matches.
  \<open>skip\<close> counts the characters of the current match that are still to be passed. No
  pattern of the source matches the empty string; an empty match is stepped over.
\<close>

fun finditer_from :: "unicode \<Rightarrow> regex \<Rightarrow> nat option \<Rightarrow> nat \<Rightarrow> pystr \<Rightarrow> pystr list" where
  "finditer_from U r p skip [] = []"
| "finditer_from U r p skip (c # cs) =
     (if 0 < skip then finditer_from U r (Some c) (skip - 1) cs
      else (case ends U r p (c # cs) of
              [] \<Rightarrow> finditer_from U r (Some c) 0 cs
            | n # _ \<Rightarrow> (if n = 0 then finditer_from U r (Some c) 0 cs
                       else take n (c # cs) # finditer_from U r (Some c) (n - 1) cs)))"

definition finditer :: "unicode \<Rightarrow> regex \<Rightarrow> pystr \<Rightarrow> pystr list" where
  "finditer U r s = finditer_from U r None 0 s"

fun sub_from :: "unicode \<Rightarrow> regex \<Rightarrow> pystr \<Rightarrow> nat option \<Rightarrow> nat \<Rightarrow> pystr \<Rightarrow> pystr" where
  "sub_from U r repl p skip [] = []"
| "sub_from U r repl p skip (c # cs) =
     (if 0 < skip then sub_from U r repl (Some c) (skip - 1) cs
      else (case ends U r p (c # cs) of
              [] \<Rightarrow> c # sub_from U r repl (Some c) 0 cs
            | n # _ \<Rightarrow> (if n = 0 then c # sub_from U r repl (Some c) 0 cs
                       else repl @ sub_from U r repl (Some c) (n - 1) cs)))"

definition sub :: "unicode \<Rightarrow> regex \<Rightarrow> pystr \<Rightarrow> pystr \<Rightarrow> pystr" where
  "sub U r repl s = sub_from U r repl None 0 s"

section \<open>Configuration (\<open>core/config.py\<close>)\<close>

text \<open>
  The settings are read from the process environment once; the fields below are the
  ones the detection pipeline reads. \<open>default_settings\<close> holds the values used when the
  environment sets nothing.
\<close>

record settings =
  ENABLE_ML :: bool
  ENABLE_ANALYTICS :: bool
  ML_WEIGHT :: real
  RULE_WEIGHT :: real
  SCAM_THRESHOLD :: real
  SUSPICIOUS_THRESHOLD :: real
  MAX_MESSAGE_LENGTH :: int

definition default_settings :: settings where
  "default_settings = \<lparr>ENABLE_ML = True, ENABLE_ANALYTICS = True,
     ML_WEIGHT = 0.65, RULE_WEIGHT = 0.35,
     SCAM_THRESHOLD = 0.75, SUSPICIOUS_THRESHOLD = 0.45,
     MAX_MESSAGE_LENGTH = 5000\<rparr>"

section \<open>Language processing (\<open>detection/language_processor.py\<close>)\<close>

text \<open>
  The language tag is the hint itself when a hint other than \<open>"auto"\<close> is given. The
  request model declares the hint \<open>Optional[str]\<close>, so the tag is an optional string.
\<close>

record lang_info =
  language :: "pystr option"
  confidence :: real
  processed_text :: pystr
  original_text :: pystr

definition ROMAN_URDU_WORDS :: "pystr list" where
  "ROMAN_URDU_WORDS =
     map py [''aap'', ''apka'', ''hai'', ''mein'', ''ko'', ''ka'', ''foran'', ''abhi'']"

definition urdu_chars :: "pystr \<Rightarrow> nat" where
  "urdu_chars text = length (filter (\<lambda>c. 0x0600 \<le> c \<and> c \<le> 0x06FF) text)"

definition roman_count :: "unicode \<Rightarrow> pystr \<Rightarrow> nat" where
  "roman_count U text = length (filter (contains (lower U text)) ROMAN_URDU_WORDS)"

definition detect_language :: "unicode \<Rightarrow> pystr \<Rightarrow> pystr \<times> real" where
  "detect_language U text =
     (if 5 < urdu_chars text
      then (py ''urdu'', real (urdu_chars text) / real (max (length text) 1))
      else if 2 \<le> roman_count U text
      then (py ''roman_urdu'', real (roman_count U text) / real (max (length (split U text)) 1))
      else (py ''english'', 0.95))"

definition TRANSLATIONS :: "(string \<times> string) list" where
  "TRANSLATIONS =
     [(''foran'', ''immediately''), (''abhi'', ''now''), (''aap'', ''you''),
      (''apka'', ''your''), (''hai'', ''is'')]"

definition translate_roman_urdu :: "unicode \<Rightarrow> pystr \<Rightarrow> pystr" where
  "translate_roman_urdu U text =
     foldl (\<lambda>t (urdu, english). sub U (wb (lit urdu)) (py english) t) text TRANSLATIONS"

definition process :: "unicode \<Rightarrow> pystr \<Rightarrow> pystr option \<Rightarrow> lang_info" where
  "process U message language_hint =
     (let (lang, conf) =
            (if language_hint = Some (py ''auto'')
             then (let (l, c) = detect_language U message in (Some l, c))
             else (language_hint, 1.0));
          processed = sub U (Rep CSpace 1 None) (py '' '') (strip U (lower U message));
          processed = (if lang = Some (py ''roman_urdu'')
                       then translate_roman_urdu U processed else processed)
      in \<lparr>language = lang, confidence = conf,
          processed_text = processed, original_text = message\<rparr>)"

section \<open>Rule engine (\<open>detection/rule_detector.py\<close>)\<close>

definition BRANDS :: "(string \<times> regex list) list" where
  "BRANDS =
     [(''pakistan_financial'',
         [wb (lit ''easypaisa''), wb (lit ''jazzcash''), wb (lit ''hbl''), wb (lit ''ubl''),
          wb (lit ''meezan''), wb (lit ''ally''), wb (lit ''faysal''), wb (lit ''habib'')]),
      (''global_financial'',
         [wb (lit ''paypal''), wb (lit ''stripe''), wb (lit ''western union'')]),
      (''global_tech'',
         [wb (lit ''whatsapp''), wb (lit ''google''), wb (lit ''amazon'')]),
      (''government'',
         [wb (lit ''fbr''), wb (lit ''nadra''), wb (lit ''irs'')])]"

definition URGENCY_KEYWORDS :: "regex list" where
  "URGENCY_KEYWORDS =
     [wb (Seq (lit ''urgent'') (Opt (lit ''ly''))), wb (lit ''immediately''), wb (lit ''asap''),
      wb (lit ''now''), wb (lit ''today''),
      wb (Seq (lit ''expir'') (Alt (lit ''e'') (Alt (lit ''ing'') (lit ''ed''))))]"

definition SENSITIVE_DATA :: "regex list" where
  "SENSITIVE_DATA =
     [wb (lit ''otp''), wb (lit ''pin''), wb (lit ''password''), wb (lit ''cvv''),
      wb (lit ''cnic'')]"

definition SHORTENED_URL :: regex where
  "SHORTENED_URL = Alt (lit ''bit.ly'') (lit ''tinyurl'')"

text \<open>The three accumulators of \<open>analyze\<close>, and the dictionary it returns.\<close>

record rule_acc =
  acc_rules :: "string list"
  acc_keywords :: "pystr list"
  acc_score :: real

record rule_result =
  score :: real
  triggered_rules :: "string list"
  keywords_list :: "pystr list"

text \<open>The inner loop of the brand detection: every pattern of the category is tried.\<close>

fun brand_patterns :: "unicode \<Rightarrow> pystr \<Rightarrow> string \<Rightarrow> regex list \<Rightarrow> rule_acc \<Rightarrow> rule_acc" where
  "brand_patterns U text category [] a = a"
| "brand_patterns U text category (pattern # patterns) a =
     brand_patterns U text category patterns
       (case search U pattern text of
          None \<Rightarrow> a
        | Some (i, g) \<Rightarrow>
            a\<lparr>acc_rules := acc_rules a @ [''brand_impersonation_'' @ category],
              acc_score := acc_score a + 0.15,
              acc_keywords := acc_keywords a @ [g]\<rparr>)"

fun brand_detection :: "unicode \<Rightarrow> pystr \<Rightarrow> (string \<times> regex list) list \<Rightarrow> rule_acc \<Rightarrow> rule_acc" where
  "brand_detection U text [] a = a"
| "brand_detection U text ((category, patterns) # rest) a =
     brand_detection U text rest (brand_patterns U text category patterns a)"

text \<open>The urgency loop collects every match of every pattern; it returns the matches.\<close>

fun urgency_matches :: "unicode \<Rightarrow> pystr \<Rightarrow> regex list \<Rightarrow> pystr list" where
  "urgency_matches U text [] = []"
| "urgency_matches U text (pattern # patterns) =
     finditer U pattern text @ urgency_matches U text patterns"

definition urgency_detection :: "unicode \<Rightarrow> pystr \<Rightarrow> rule_acc \<Rightarrow> rule_acc" where
  "urgency_detection U text a =
     (let matches = urgency_matches U text URGENCY_KEYWORDS;
          urgency_count = length matches;
          a = a\<lparr>acc_keywords := acc_keywords a @ matches\<rparr>
      in if 0 < urgency_count
         then a\<lparr>acc_rules := acc_rules a @ [''urgency_language''],
                acc_score := acc_score a + min (real urgency_count * 0.1) 0.25\<rparr>
         else a)"

text \<open>The sensitive-data loop leaves at the first pattern that matches (\<open>break\<close>).\<close>

fun sensitive_detection :: "unicode \<Rightarrow> pystr \<Rightarrow> regex list \<Rightarrow> rule_acc \<Rightarrow> rule_acc" where
  "sensitive_detection U text [] a = a"
| "sensitive_detection U text (pattern # patterns) a =
     (case search U pattern text of
        None \<Rightarrow> sensitive_detection U text patterns a
      | Some (i, g) \<Rightarrow>
          a\<lparr>acc_rules := acc_rules a @ [''sensitive_data_request''],
            acc_score := acc_score a + 0.25,
            acc_keywords := acc_keywords a @ [g]\<rparr>)"

definition url_detection :: "unicode \<Rightarrow> pystr \<Rightarrow> rule_acc \<Rightarrow> rule_acc" where
  "url_detection U text a =
     (case search U SHORTENED_URL text of
        None \<Rightarrow> a
      | Some m \<Rightarrow>
          a\<lparr>acc_rules := acc_rules a @ [''shortened_url''],
            acc_score := acc_score a + 0.25,
            acc_keywords := acc_keywords a @ [py ''shortened_url'']\<rparr>)"

text \<open>
  \<open>list(set(xs))\<close> keeps one copy of every element in an order the language leaves
  open; \<open>remdups\<close> is one such list.
\<close>

definition analyze :: "unicode \<Rightarrow> pystr \<Rightarrow> lang_info \<Rightarrow> rule_result" where
  "analyze U message li =
     (let text_lower = lower U message;
          a = \<lparr>acc_rules = [], acc_keywords = [], acc_score = 0\<rparr>;
          a = brand_detection U text_lower BRANDS a;
          a = urgency_detection U text_lower a;
          a = sensitive_detection U text_lower SENSITIVE_DATA a;
          a = url_detection U text_lower a
      in \<lparr>score = min (acc_score a) 1.0,
          triggered_rules = remdups (acc_rules a),
          keywords_list = remdups (acc_keywords a)\<rparr>)"

definition EXPLAINED_RULES :: "string list" where
  "EXPLAINED_RULES =
     [''brand_impersonation_pakistan_financial'', ''brand_impersonation_global_financial'',
      ''brand_impersonation_global_tech'', ''brand_impersonation_government'',
      ''urgency_language'', ''sensitive_data_request'', ''shortened_url'']"

section \<open>Detection engine (\<open>main.py\<close>)\<close>

datatype classification = SAFE | SUSPICIOUS | SCAM

text \<open>\<open>round(x, n)\<close>: to \<open>n\<close> decimals, a tie going to the even neighbour.\<close>

definition round_half_even :: "real \<Rightarrow> int" where
  "round_half_even y =
     (let f = \<lfloor>y\<rfloor>; d = y - of_int f
      in if d < 1 / 2 then f else if 1 / 2 < d then f + 1 else if even f then f else f + 1)"

definition py_round :: "real \<Rightarrow> nat \<Rightarrow> real" where
  "py_round x n = of_int (round_half_even (x * 10 ^ n)) / 10 ^ n"

definition calculate_final_score :: "settings \<Rightarrow> real \<Rightarrow> real \<Rightarrow> real" where
  "calculate_final_score S ml_score rule_score =
     (let ml_weight = ML_WEIGHT S;
          rule_weight = RULE_WEIGHT S;
          final = (ml_score * ml_weight) + (rule_score * rule_weight)
      in min final 1.0)"

definition classify :: "settings \<Rightarrow> real \<Rightarrow> classification" where
  "classify S sc =
     (if SCAM_THRESHOLD S \<le> sc then SCAM
      else if SUSPICIOUS_THRESHOLD S \<le> sc then SUSPICIOUS
      else SAFE)"

definition calculate_confidence :: "real \<Rightarrow> real \<Rightarrow> real" where
  "calculate_confidence ml_score rule_score =
     (if ml_score = 0 then min (rule_score * 1.2) 1.0
      else (let agreement = 1 - \<bar>ml_score - rule_score\<bar>;
                avg_score = (ml_score + rule_score) / 2;
                conf = avg_score * agreement * 1.5
            in min conf 1.0))"

text \<open>
  The exceptions that the pipeline can meet, and the lines of text it produces. A line is
  represented by a constructor that keeps the values formatted into it.
\<close>

datatype py_error = AttributeError | ClassifierError | UnicodeEncodeError | TrackerError

datatype explanation =
    AIDetection real
  | AIAlert real
  | LanguageDetected pystr real
  | RuleExplanation string
  | MultipleRedFlags
  | NoIndicators

datatype recommendation =
    DoNotRespond | DeleteMessage | ReportSpam
  | ExerciseCaution | VerifySender | DoNotClick
  | AppearsSafe
  | NeverShareOTP | VerifyOfficialApp | NeverClickShortened

text \<open>
  \<open>lang_info['language'].upper()\<close> is formatted into the language line; on the tag \<open>None\<close>
  the attribute lookup raises.
\<close>

definition generate_explanations ::
  "settings \<Rightarrow> real \<Rightarrow> rule_result \<Rightarrow> lang_info \<Rightarrow> py_error + explanation list" where
  "generate_explanations S ml_score rule_res li =
     (let ml_part =
            (if ENABLE_ML S \<and> 0 < ml_score
             then (if 0.75 < ml_score then [AIDetection ml_score]
                   else if 0.45 < ml_score then [AIAlert ml_score] else [])
             else []);
          rule_part = map RuleExplanation
                        (filter (\<lambda>r. r \<in> set EXPLAINED_RULES) (triggered_rules rule_res));
          multi = (if 3 \<le> length (triggered_rules rule_res) then [MultipleRedFlags] else []);
          finish = (\<lambda>lang_part.
                      let e = ml_part @ lang_part @ rule_part @ multi
                      in if e = [] then [NoIndicators] else e)
      in if language li \<noteq> Some (py ''english'')
         then (case language li of
                 None \<Rightarrow> Inl AttributeError
               | Some l \<Rightarrow> Inr (finish [LanguageDetected l (confidence li)]))
         else Inr (finish []))"

definition generate_recommendations :: "classification \<Rightarrow> string list \<Rightarrow> recommendation list" where
  "generate_recommendations c rules =
     (case c of
        SCAM \<Rightarrow> [DoNotRespond, DeleteMessage, ReportSpam]
      | SUSPICIOUS \<Rightarrow> [ExerciseCaution, VerifySender, DoNotClick]
      | SAFE \<Rightarrow> [AppearsSafe])
     @ (if ''sensitive_data_request'' \<in> set rules then [NeverShareOTP] else [])
     @ (if ''brand_impersonation_pakistan_financial'' \<in> set rules then [VerifyOfficialApp] else [])
     @ (if ''shortened_url'' \<in> set rules then [NeverClickShortened] else [])"

section \<open>Analytics (\<open>analytics/tracker.py\<close>)\<close>

text \<open>
  A point in time is a number of microseconds; \<open>datetime.now()\<close> is an argument of the
  functions that read the clock. The ISO text of a timestamp and its parsing back are
  inverse to each other, so a record keeps the time itself.
\<close>

type_synonym time = int

definition timedelta_hours :: "int \<Rightarrow> time" where
  "timedelta_hours h = h * 3600000000"

record detection_result =
  res_classification :: classification
  res_risk_score :: real
  res_ml_score :: real
  res_rule_score :: real
  res_confidence :: real
  res_explanation :: "explanation list"
  res_highlighted_keywords :: "pystr list"
  res_triggered_rules :: "string list"
  res_safety_recommendations :: "recommendation list"
  res_language_detected :: "pystr option"
  res_language_confidence :: real
  res_analyzed_at :: time
  res_message_hash :: string

text \<open>
  The stored record. The result dictionary has no key \<open>ml_probability\<close> and no key
  \<open>language_detected\<close>, so \<open>get\<close> yields \<open>None\<close> for both.
\<close>

record detection_record =
  timestamp :: time
  d_classification :: classification
  d_risk_score :: real
  d_ml_probability :: "real option"
  d_rule_score :: real
  d_triggered_rules :: "string list"
  d_language :: "pystr option"
  d_message_hash :: string
  d_message_length :: nat
  d_has_urls :: bool

definition PHONE_PATTERN :: regex where
  "PHONE_PATTERN = wb (Rep CDigit 10 None)"

definition CNIC_PATTERN :: regex where
  "CNIC_PATTERN =
     wb (Seq (Rep CDigit 5 (Some 5)) (Seq (lit ''-'')
        (Seq (Rep CDigit 7 (Some 7)) (Seq (lit ''-'') (Rep CDigit 1 (Some 1))))))"

definition EMAIL_PATTERN :: regex where
  "EMAIL_PATTERN =
     (let name = Rep (CUnion CWord (CUnion (COne 46) (COne 45))) 1 None
      in wb (Seq name (Seq (lit ''@'') (Seq name (Seq (lit ''.'') (Rep CWord 1 None))))))"

definition CARD_PATTERN :: regex where
  "CARD_PATTERN =
     (let d4 = Rep CDigit 4 (Some 4);
          sep = Opt (Cls (CUnion CSpace (COne 45)))
      in wb (Seq d4 (Seq sep (Seq d4 (Seq sep (Seq d4 (Seq sep d4)))))))"

definition URL_PATTERN :: regex where
  "URL_PATTERN =
     Seq (lit ''http'') (Seq (Opt (lit ''s'')) (Seq (lit ''://'') (Rep (CNot CSpace) 1 None)))"

definition anonymize_message :: "unicode \<Rightarrow> pystr \<Rightarrow> pystr" where
  "anonymize_message U message =
     (let message = sub U PHONE_PATTERN (py ''[PHONE]'') message;
          message = sub U CNIC_PATTERN (py ''[CNIC]'') message;
          message = sub U EMAIL_PATTERN (py ''[EMAIL]'') message;
          message = sub U CARD_PATTERN (py ''[CARD]'') message;
          message = sub U URL_PATTERN (py ''[URL]'') message
      in message)"

text \<open>
  The state of \<open>ScamAnalytics\<close>. The four counters that \<open>_update_counters\<close> maintains
  are written and never read, and are left out; the anonymised message is computed and
  not stored.
\<close>

record scam_analytics =
  detections :: "detection_record list"

definition detection_record_of ::
  "(pystr \<Rightarrow> string) \<Rightarrow> time \<Rightarrow> detection_result \<Rightarrow> pystr \<Rightarrow> detection_record" where
  "detection_record_of sha now analysis_result message =
     \<lparr>timestamp = now,
      d_classification = res_classification analysis_result,
      d_risk_score = res_risk_score analysis_result,
      d_ml_probability = None,
      d_rule_score = res_rule_score analysis_result,
      d_triggered_rules = res_triggered_rules analysis_result,
      d_language = None,
      d_message_hash = sha message,
      d_message_length = length message,
      d_has_urls = (0 < length (res_highlighted_keywords analysis_result))\<rparr>"

definition log_detection ::
  "(pystr \<Rightarrow> string) \<Rightarrow> time \<Rightarrow> scam_analytics \<Rightarrow> detection_result \<Rightarrow> pystr \<Rightarrow> scam_analytics" where
  "log_detection sha now A analysis_result message =
     (let detection_record = detection_record_of sha now analysis_result message;
          ds = detections A @ [detection_record]
      in A\<lparr>detections := (if 10000 < length ds then drop (length ds - 10000) ds else ds)\<rparr>)"

text \<open>A sequence of calls of \<open>log_detection\<close>, each with its clock reading, result and message.\<close>

definition log_detections ::
  "(pystr \<Rightarrow> string) \<Rightarrow> scam_analytics \<Rightarrow> (time \<times> detection_result \<times> pystr) list \<Rightarrow> scam_analytics" where
  "log_detections sha A calls =
     foldl (\<lambda>A (now, analysis_result, message). log_detection sha now A analysis_result message)
       A calls"

definition new_analytics :: scam_analytics where
  "new_analytics = \<lparr>detections = []\<rparr>"

text \<open>A \<open>Counter\<close> keeps its keys in insertion order; \<open>most_common\<close> sorts stably by count.\<close>

fun counter_add :: "'a \<Rightarrow> ('a \<times> nat) list \<Rightarrow> ('a \<times> nat) list" where
  "counter_add k [] = [(k, 1)]"
| "counter_add k ((k', n) # rest) =
     (if k = k' then (k', n + 1) # rest else (k', n) # counter_add k rest)"

definition most_common :: "nat \<Rightarrow> ('a \<times> nat) list \<Rightarrow> ('a \<times> nat) list" where
  "most_common limit c = take limit (sort_key (\<lambda>(k, n). - int n) c)"

definition get_top_patterns :: "detection_record list \<Rightarrow> nat \<Rightarrow> (string \<times> nat) list" where
  "get_top_patterns ds limit =
     most_common limit
       (foldl (\<lambda>pattern_counts detection.
                 if d_classification detection \<in> {SCAM, SUSPICIOUS}
                 then foldl (\<lambda>pc rule. counter_add rule pc) pattern_counts
                        (d_triggered_rules detection)
                 else pattern_counts)
              [] ds)"

text \<open>
  The statistics of a window. Of the dictionary that \<open>get_statistics\<close> builds, the
  counts, the averages and the top patterns are kept (a top pattern without its
  description); the brand tally, the language distribution and the hourly trend are read
  by no other function modelled here.
\<close>

record window_stats =
  time_period_hours :: int
  total_messages_analyzed :: nat
  scam_count :: nat
  suspicious_count :: nat
  safe_count :: nat
  scam_percentage :: real
  average_overall :: real
  average_scams_only :: real
  top_scam_patterns :: "(string \<times> nat) list"

datatype statistics = EmptyStats | Stats window_stats

definition get_statistics :: "scam_analytics \<Rightarrow> time \<Rightarrow> int \<Rightarrow> statistics" where
  "get_statistics A now hours =
     (let cutoff_time = now - timedelta_hours hours;
          recent = filter (\<lambda>d. cutoff_time < timestamp d) (detections A)
      in if recent = [] then EmptyStats
         else (let total_analyzed = length recent;
                   scams = filter (\<lambda>d. d_classification d = SCAM) recent;
                   suspicious = filter (\<lambda>d. d_classification d = SUSPICIOUS) recent;
                   safe = filter (\<lambda>d. d_classification d = SAFE) recent
               in Stats
                    \<lparr>time_period_hours = hours,
                     total_messages_analyzed = total_analyzed,
                     scam_count = length scams,
                     suspicious_count = length suspicious,
                     safe_count = length safe,
                     scam_percentage =
                       py_round (real (length scams) / real total_analyzed * 100) 2,
                     average_overall =
                       py_round (sum_list (map d_risk_score recent) / real total_analyzed) 2,
                     average_scams_only =
                       (if scams = [] then 0
                        else py_round (sum_list (map d_risk_score scams) / real (length scams)) 2),
                     top_scam_patterns = get_top_patterns recent 10\<rparr>))"

definition stats_top_patterns :: "statistics \<Rightarrow> (string \<times> nat) list" where
  "stats_top_patterns st = (case st of EmptyStats \<Rightarrow> [] | Stats w \<Rightarrow> top_scam_patterns w)"

record emerging_threat =
  pattern :: string
  recent_count :: nat
  previous_count :: nat
  change_percentage :: real

text \<open>
  \<open>get_emerging_threats\<close> reads the clock twice, once in each call of
  \<open>get_statistics\<close>: \<open>now1\<close> and \<open>now2\<close>.
\<close>

definition get_emerging_threats :: "scam_analytics \<Rightarrow> time \<Rightarrow> time \<Rightarrow> emerging_threat list" where
  "get_emerging_threats A now1 now2 =
     (let recent = get_statistics A now1 24;
          older = get_statistics A now2 48;
          recent_patterns = stats_top_patterns recent;
          older_patterns = map_of (stats_top_patterns older);
          emerging =
            concat (map (\<lambda>(p, recent_count).
                           let older_count = (case older_patterns p of None \<Rightarrow> 0 | Some c \<Rightarrow> c)
                           in if older_count = 0 \<or> real older_count * 1.5 < real recent_count
                              then [\<lparr>pattern = p, recent_count = recent_count,
                                     previous_count = older_count,
                                     change_percentage =
                                       py_round ((real recent_count - real older_count)
                                                 / real (max older_count 1) * 100) 2\<rparr>]
                              else [])
                        recent_patterns)
      in take 5 (sort_key (\<lambda>e. - change_percentage e) emerging))"

section \<open>The analysis pipeline and its endpoint (\<open>main.py\<close>)\<close>

text \<open>
  \<open>main.py\<close> imports \<open>AnalyticsTracker\<close> from \<open>analytics.tracker\<close>, \<open>ThreatIntelligence\<close>
  from \<open>analytics.threat_intel\<close> and \<open>logger\<close> from \<open>core.logger\<close>. None of them is
  defined in the repository: \<open>analytics/tracker.py\<close> defines \<open>ScamAnalytics\<close>, and the two
  other modules are absent. The functions of \<open>main.py\<close> are modelled as they are written,
  for an interpreter in which these names are bound; calls of \<open>logger\<close> only write to the
  log and are left out.

  The engine holds the classifier, when machine learning is enabled, and the analytics
  tracker, when analytics is enabled. The classifier is a trained statistical model
  outside the reach of this development: it is a function from the processed text to a
  probability, or to an exception. The tracker is an object of the missing class
  \<open>AnalyticsTracker\<close>: its method \<open>log_detection\<close> is a parameter, a function of the result
  and the message that returns (\<open>None\<close>) or raises (\<open>Some e\<close>). What the call does to the
  tracker's own state is not visible in the value that \<open>analyze_message\<close> returns.
\<close>

record engine =
  ml_detector :: "(pystr \<Rightarrow> py_error + real) option"
  analytics :: "(detection_result \<Rightarrow> pystr \<Rightarrow> py_error option) option"

text \<open>
  \<open>_generate_hash\<close>: \<open>message.encode()\<close> raises \<open>UnicodeEncodeError\<close> when the message holds
  a surrogate code point; on every other message \<open>sha\<close> stands for the first sixteen
  hexadecimal digits of the SHA-256 digest of the encoded message.
\<close>

definition surrogate :: "nat \<Rightarrow> bool" where
  "surrogate c = (55296 \<le> c \<and> c \<le> 57343)"

definition generate_hash :: "(pystr \<Rightarrow> string) \<Rightarrow> pystr \<Rightarrow> py_error + string" where
  "generate_hash sha message =
     (if list_ex surrogate message then Inl UnicodeEncodeError else Inr (sha message))"

definition analyze_message ::
  "settings \<Rightarrow> unicode \<Rightarrow> (pystr \<Rightarrow> string) \<Rightarrow> time \<Rightarrow> engine \<Rightarrow> pystr \<Rightarrow> pystr option
     \<Rightarrow> py_error + detection_result" where
  "analyze_message S U sha now E message lang =
     (let li = process U message lang;
          ml = (case ml_detector E of
                  None \<Rightarrow> Inr 0.0
                | Some predict \<Rightarrow> if ENABLE_ML S then predict (processed_text li) else Inr 0.0)
      in case ml of
           Inl e \<Rightarrow> Inl e
         | Inr ml_score \<Rightarrow>
            (let rule_res = analyze U message li;
                 rule_score = score rule_res;
                 final_score = calculate_final_score S ml_score rule_score;
                 cls = classify S final_score;
                 conf = calculate_confidence ml_score rule_score
             in case generate_explanations S ml_score rule_res li of
                  Inl e \<Rightarrow> Inl e
                | Inr explanations \<Rightarrow>
                   (let recommendations = generate_recommendations cls (triggered_rules rule_res)
                    in case generate_hash sha message of
                         Inl e \<Rightarrow> Inl e
                       | Inr message_hash \<Rightarrow>
                          (let result =
                                 \<lparr>res_classification = cls,
                                  res_risk_score = py_round (final_score * 100) 2,
                                  res_ml_score = py_round ml_score 4,
                                  res_rule_score = py_round rule_score 4,
                                  res_confidence = py_round conf 4,
                                  res_explanation = explanations,
                                  res_highlighted_keywords = keywords_list rule_res,
                                  res_triggered_rules = triggered_rules rule_res,
                                  res_safety_recommendations = recommendations,
                                  res_language_detected = language li,
                                  res_language_confidence = py_round (confidence li) 4,
                                  res_analyzed_at = now,
                                  res_message_hash = message_hash\<rparr>
                           in case analytics E of
                                None \<Rightarrow> Inr result
                              | Some log_detection_of_tracker \<Rightarrow>
                                  (case log_detection_of_tracker result message of
                                     Some e \<Rightarrow> Inl e
                                   | None \<Rightarrow> Inr result)))))"

datatype http_detail = MessageEmpty | MessageTooLong int | AnalysisFailed

datatype http_error = HTTPException nat http_detail

definition analyze_endpoint ::
  "settings \<Rightarrow> unicode \<Rightarrow> (pystr \<Rightarrow> string) \<Rightarrow> time \<Rightarrow> engine \<Rightarrow> pystr \<Rightarrow> pystr option
     \<Rightarrow> http_error + detection_result" where
  "analyze_endpoint S U sha now E message lang =
     (if message = [] \<or> length (strip U message) = 0
      then Inl (HTTPException 400 MessageEmpty)
      else if MAX_MESSAGE_LENGTH S < int (length message)
      then Inl (HTTPException 400 (MessageTooLong (MAX_MESSAGE_LENGTH S)))
      else (case analyze_message S U sha now E message lang of
              Inl e \<Rightarrow> Inl (HTTPException 500 AnalysisFailed)
            | Inr r \<Rightarrow> Inr r))"

section \<open>Example inputs\<close>

text \<open>A digest function and a result used to run the analytics functions on concrete logs.\<close>

definition sample_sha :: "pystr \<Rightarrow> string" where
  "sample_sha m = ''0000000000000000''"

definition sample_result :: detection_result where
  "sample_result =
     \<lparr>res_classification = SCAM, res_risk_score = 80, res_ml_score = 0.9,
      res_rule_score = 0.1, res_confidence = 0.15,
      res_explanation = [AIDetection 0.9, RuleExplanation ''urgency_language''],
      res_highlighted_keywords = [py ''now''],
      res_triggered_rules = [''urgency_language''],
      res_safety_recommendations = [DoNotRespond, DeleteMessage, ReportSpam],
      res_language_detected = Some (py ''english''), res_language_confidence = 0.95,
      res_analyzed_at = 0, res_message_hash = ''0000000000000000''\<rparr>"

definition sample_calls :: "(time \<times> detection_result \<times> pystr) list" where
  "sample_calls = map (\<lambda>i. (int i, sample_result, py ''pay now'')) [0 ..< 10001]"

text \<open>A log with a single detection, made at time 0.\<close>

definition fresh_log :: scam_analytics where
  "fresh_log = log_detection sample_sha 0 new_analytics sample_result (py ''pay now'')"

text \<open>
  A configuration with the classifier switched off, and an engine without classifier
  whose tracker logs every detection without raising.
\<close>

definition no_ml_settings :: settings where
  "no_ml_settings = default_settings\<lparr>ENABLE_ML := False\<rparr>"

definition no_ml_engine :: engine where
  "no_ml_engine = \<lparr>ml_detector = None, analytics = Some (\<lambda>result message. None)\<rparr>"

text \<open>The message of the example scenario.\<close>

definition example_message :: pystr where
  "example_message = py ''urgent your easypaisa account will be suspended verify otp now''"

section \<open>Notions used to state the properties of the rule engine\<close>

text \<open>A pattern matches a text when \<open>re.search\<close> finds a match.\<close>

definition matches :: "unicode \<Rightarrow> pystr \<Rightarrow> regex \<Rightarrow> bool" where
  "matches U text r = (search U r text \<noteq> None)"

text \<open>
  The rule score in the words of the specification, to be compared with the score that
  \<open>analyze\<close> computes: 0.15 for every brand category with a matching pattern, the capped
  urgency term, 0.25 when a sensitive-data pattern matches, 0.25 when the shortened-URL
  pattern matches, the sum clamped to the unit interval.
\<close>

definition spec_rule_score :: "unicode \<Rightarrow> pystr \<Rightarrow> real" where
  "spec_rule_score U message =
     (let text = lower U message;
          brand = 0.15 * real (length (filter (\<lambda>(category, patterns).
                                   list_ex (matches U text) patterns) BRANDS));
          urgency = min (real (length (urgency_matches U text URGENCY_KEYWORDS)) * 0.10) 0.25;
          sensitive = (if list_ex (matches U text) SENSITIVE_DATA then 0.25 else 0);
          url = (if matches U text SHORTENED_URL then 0.25 else 0)
      in max 0 (min (brand + urgency + sensitive + url) 1))"

text \<open>
  The continuation of a concatenation: the matches of \<open>b\<close> after each of the lengths \<open>ns\<close>
  already matched. It is the right-hand side of \<open>ends\<close> on \<open>Seq\<close>, named so that a match on
  a concrete text can be computed step by step.
\<close>

definition seq_cont :: "unicode \<Rightarrow> regex \<Rightarrow> nat option \<Rightarrow> pystr \<Rightarrow> nat list \<Rightarrow> nat list" where
  "seq_cont U b p s ns =
     concat (map (\<lambda>n. map (\<lambda>m. n + m) (ends U b (prev_after p s n) (drop n s))) ns)"

text \<open>
  The keywords of a pattern: the texts it can match, for the patterns that are built from
  literal characters, \<open>\b\<close>, concatenation, alternation and \<open>?\<close> only (\<open>plain\<close>).
\<close>

fun plain :: "regex \<Rightarrow> bool" where
  "plain Eps = True"
| "plain (Cls (COne c)) = True"
| "plain (Cls _) = False"
| "plain WordB = True"
| "plain (Seq a b) = (plain a \<and> plain b)"
| "plain (Alt a b) = (plain a \<and> plain b)"
| "plain (Opt a) = plain a"
| "plain (Rep cs lo hi) = False"

fun words :: "regex \<Rightarrow> pystr list" where
  "words Eps = [[]]"
| "words (Cls (COne c)) = [[c]]"
| "words (Cls _) = []"
| "words WordB = [[]]"
| "words (Seq a b) = concat (map (\<lambda>x. map (\<lambda>y. x @ y) (words b)) (words a))"
| "words (Alt a b) = words a @ words b"
| "words (Opt a) = words a @ [[]]"
| "words (Rep cs lo hi) = []"

text \<open>
  A word pattern has the form \<open>\b...\b\<close>, is plain, and each of its keywords begins and
  ends with a word character.
\<close>

fun is_wb :: "regex \<Rightarrow> bool" where
  "is_wb (Seq WordB (Seq b WordB)) = True"
| "is_wb _ = False"

definition word_kw :: "unicode \<Rightarrow> pystr \<Rightarrow> bool" where
  "word_kw U kw = (kw \<noteq> [] \<and> is_word U (hd kw) \<and> is_word U (last kw))"

definition word_pattern :: "unicode \<Rightarrow> regex \<Rightarrow> bool" where
  "word_pattern U r = (is_wb r \<and> plain r \<and> list_all (word_kw U) (words r))"

text \<open>
  The keyword \<open>kw\<close> occurs in the text at position \<open>k\<close> as a whole word: the character
  before it, if there is one, is not a word character, and neither is the character
  after it. \<open>whole_word\<close>: it does so at some position.
\<close>

definition whole_word_at :: "unicode \<Rightarrow> pystr \<Rightarrow> nat \<Rightarrow> pystr \<Rightarrow> bool" where
  "whole_word_at U text k kw =
     (take (length kw) (drop k text) = kw
      \<and> \<not> word_opt U (prev_after None text k)
      \<and> \<not> word_opt U (first_opt (drop (k + length kw) text)))"

definition whole_word :: "unicode \<Rightarrow> pystr \<Rightarrow> pystr \<Rightarrow> bool" where
  "whole_word U text kw = list_ex (\<lambda>k. whole_word_at U text k kw) [0 ..< Suc (length text)]"

text \<open>
  The patterns whose match triggers a rule, by the name of the rule, and the property
  that some keyword of some pattern of the rule occurs in the text as a whole word.
\<close>

definition rule_patterns :: "string \<Rightarrow> regex list" where
  "rule_patterns rule =
     concat (map snd (filter (\<lambda>(category, patterns). ''brand_impersonation_'' @ category = rule) BRANDS))
     @ (if rule = ''urgency_language'' then URGENCY_KEYWORDS else [])
     @ (if rule = ''sensitive_data_request'' then SENSITIVE_DATA else [])
     @ (if rule = ''shortened_url'' then [SHORTENED_URL] else [])"

definition whole_word_rule :: "unicode \<Rightarrow> pystr \<Rightarrow> string \<Rightarrow> bool" where
  "whole_word_rule U text rule =
     list_ex (\<lambda>r. list_ex (whole_word U text) (words r)) (rule_patterns rule)"

section \<open>Score combination\<close>




section \<open>The bounded detection log\<close>

lemma log_detection_detections:
  "detections (log_detection sha now A r m) =
     drop (length (detections A) + 1 - 10000) (detections A @ [detection_record_of sha now r m])"
  by (simp add: log_detection_def Let_def)

lemma log_detection_length:
  "length (detections A) \<le> 10000 \<Longrightarrow> length (detections (log_detection sha now A r m)) \<le> 10000"
  by (simp add: log_detection_def Let_def)

lemma drop_window_step:
  assumes "length ds \<le> 10000"
  shows "drop (length (drop (length ds + 1 - 10000) (ds @ [x])) + length rest - 10000)
           (drop (length ds + 1 - 10000) (ds @ [x]) @ rest)
         = drop (length ds + Suc (length rest) - 10000) (ds @ x # rest)"
proof (cases "length ds = 10000")
  case True
  then obtain d ds' where ds: "ds = d # ds'" by (cases ds) auto
  with True have len: "length ds' = 9999" by simp
  show ?thesis by (simp add: ds len)
next
  case False
  with assms have "length ds < 10000" by simp
  then show ?thesis by simp
qed

text \<open>
  After any sequence of calls the log holds the last 10000 of the records ever appended,
  oldest first.
\<close>

lemma log_detections_window:
  "length (detections A) \<le> 10000 \<Longrightarrow>
   detections (log_detections sha A calls) =
     drop (length (detections A) + length calls - 10000)
       (detections A @ map (\<lambda>(now, r, m). detection_record_of sha now r m) calls)"
proof (induction calls arbitrary: A)
  case Nil
  then show ?case by (simp add: log_detections_def)
next
  case (Cons c calls)
  obtain now r m where c: "c = (now, r, m)" by (cases c) auto
  let ?A = "log_detection sha now A r m"
  let ?f = "\<lambda>(now, r, m). detection_record_of sha now r m"
  have step: "log_detections sha A (c # calls) = log_detections sha ?A calls"
    by (simp add: log_detections_def c)
  have len: "length (detections ?A) \<le> 10000"
    using Cons.prems by (rule log_detection_length)
  have "detections (log_detections sha A (c # calls))
          = drop (length (detections ?A) + length (map ?f calls) - 10000)
              (detections ?A @ map ?f calls)"
    unfolding step Cons.IH [OF len] by simp
  also have "\<dots> = drop (length (detections A) + Suc (length (map ?f calls)) - 10000)
                     (detections A @ detection_record_of sha now r m # map ?f calls)"
    unfolding log_detection_detections by (rule drop_window_step [OF Cons.prems])
  finally show ?case by (simp add: c)
qed

text \<open>
  C9. Starting from an empty log, after the 10,001st call of \<open>log_detection\<close> the log
  holds exactly 10,000 records: the records of calls 2 to 10,001 in order. The record of
  the first call has been evicted and the record of the last call is the last entry.
\<close>

theorem log_truncates_to_capacity:
  assumes "length calls = 10001"
  shows "detections (log_detections sha new_analytics calls)
           = map (\<lambda>(now, r, m). detection_record_of sha now r m) (tl calls)
         \<and> length (detections (log_detections sha new_analytics calls)) = 10000
         \<and> last (detections (log_detections sha new_analytics calls))
             = (\<lambda>(now, r, m). detection_record_of sha now r m) (last calls)"
proof -
  have eq: "detections (log_detections sha new_analytics calls)
              = map (\<lambda>(now, r, m). detection_record_of sha now r m) (tl calls)"
    using assms log_detections_window [of new_analytics sha calls]
    by (simp add: new_analytics_def drop_Suc drop_map)
  have ne: "tl calls \<noteq> []" using assms by (cases calls) auto
  have "last (tl calls) = last calls" using ne by (cases calls) auto
  with eq ne assms show ?thesis by (simp add: last_map)
qed

theorem log_truncates_to_capacity_witness:
  "detections (log_detections sample_sha new_analytics sample_calls)
     = map (\<lambda>(now, r, m). detection_record_of sample_sha now r m) (tl sample_calls)
   \<and> length (detections (log_detections sample_sha new_analytics sample_calls)) = 10000
   \<and> last (detections (log_detections sample_sha new_analytics sample_calls))
       = (\<lambda>(now, r, m). detection_record_of sample_sha now r m) (last sample_calls)"
proof -
  have len: "length sample_calls = 10001" by (simp add: sample_calls_def)
  show ?thesis by (rule log_truncates_to_capacity [OF len])
qed

section \<open>Emerging threats\<close>

text \<open>
  C7. The source announces the second window as "older detections (24-48 hours ago)" and
  computes it as \<open>get_statistics(hours=48)\<close>, the whole last 48 hours. On a log whose only
  detection is one hour old the pattern \<open>urgency_language\<close> is counted once in the last 24
  hours and no record lies between 24 and 48 hours back, yet the pattern is not reported:
  the result is empty.
\<close>

theorem emerging_threats_misses_new_pattern:
  "stats_top_patterns (get_statistics fresh_log (timedelta_hours 1) 24) = [(''urgency_language'', 1)]
   \<and> filter (\<lambda>d. timedelta_hours 1 - timedelta_hours 48 < timestamp d
                 \<and> timestamp d \<le> timedelta_hours 1 - timedelta_hours 24) (detections fresh_log) = []
   \<and> stats_top_patterns (get_statistics fresh_log (timedelta_hours 1) 48) = [(''urgency_language'', 1)]
   \<and> get_emerging_threats fresh_log (timedelta_hours 1) (timedelta_hours 1) = []"
  by (simp add: get_emerging_threats_def get_statistics_def fresh_log_def log_detection_def
      detection_record_of_def new_analytics_def sample_result_def timedelta_hours_def Let_def
      get_top_patterns_def most_common_def stats_top_patterns_def)

section \<open>Language confidence\<close>

text \<open>
  C5. The transliterated branch divides the number of marker words that occur as
  substrings of the text by the number of whitespace-separated words. In
  \<open>"aapka otp"\<close> the markers \<open>aap\<close>, \<open>apka\<close> and \<open>ka\<close> all occur inside the one word
  \<open>aapka\<close>: the reported confidence is 3/2.
\<close>

theorem roman_urdu_confidence_exceeds_one:
  "language (process U (py ''aapka otp'') (Some (py ''auto''))) = Some (py ''roman_urdu'')
   \<and> confidence (process U (py ''aapka otp'') (Some (py ''auto''))) = 3 / 2"
  by code_simp

section \<open>Redaction order\<close>

text \<open>
  C6. \<open>_anonymize_message\<close> substitutes the run of ten or more digits first and the card
  pattern fourth. A card number written without separators is a run of sixteen digits and
  leaves as \<open>[PHONE]\<close>; only a card number written in separated groups reaches the card
  pattern.
\<close>

theorem card_number_redacted_as_phone:
  "anonymize_message U (py ''1234567812345678'') = py ''[PHONE]''
   \<and> anonymize_message U (py ''1234 5678 1234 5678'') = py ''[CARD]''"
  by code_simp

section \<open>Rule analysis, language metadata and letter case\<close>

lemma analyze_lower_only:
  "lower U m = lower U m' \<Longrightarrow> analyze U m li = analyze U m' li'"
  by (simp add: analyze_def)

lemma analyze_message_rule_part:
  assumes "analyze_message S U sha now E m lang = Inr r"
  shows "res_triggered_rules r = triggered_rules (analyze U m li)
       \<and> res_highlighted_keywords r = keywords_list (analyze U m li)
       \<and> res_rule_score r = py_round (score (analyze U m li)) 4"
proof -
  have eq: "analyze U m (process U m lang) = analyze U m li"
    by (rule analyze_lower_only) simp
  from assms show ?thesis
    unfolding analyze_message_def Let_def eq
    by (auto split: sum.splits option.splits if_splits)
qed

lemma process_language_Some:
  "language (process U m (Some h)) \<noteq> None"
  by (simp add: process_def Let_def split: prod.splits)

lemma generate_explanations_ok:
  "language li \<noteq> None \<Longrightarrow> \<exists>es. generate_explanations S ml rr li = Inr es"
  by (auto simp add: generate_explanations_def Let_def split: option.splits)

text \<open>
  Without the classifier, with a hint that is a string, a message that can be encoded
  and a tracker that is absent or logs the detection without raising, the pipeline returns.
\<close>

lemma analyze_message_no_ml:
  assumes "ml_detector E = None \<or> \<not> ENABLE_ML S"
    and "\<not> list_ex surrogate m"
    and "analytics E = None \<or> (\<exists>log. analytics E = Some log \<and> (\<forall>r. log r m = None))"
  shows "\<exists>r. analyze_message S U sha now E m (Some h) = Inr r"
proof -
  let ?li = "process U m (Some h)"
  obtain es where es: "generate_explanations S 0 (analyze U m ?li) ?li = Inr es"
    using generate_explanations_ok [OF process_language_Some] by blast
  have hash: "generate_hash sha m = Inr (sha m)"
    using assms(2) by (simp add: generate_hash_def)
  from assms(1,3) show ?thesis
    unfolding analyze_message_def Let_def
    by (auto simp add: es hash split: option.splits)
qed

text \<open>
  C10, as the claim states it, fails for two messages that are equal up to letter case
  but differ in their lower-case forms. The upper-case form of the word written with the
  dotless i (112, 305, 110) is \<open>PIN\<close>; the rule analysis of \<open>PIN\<close> triggers the
  sensitive-data rule, that of the word itself triggers nothing.
\<close>

theorem upper_case_form_changes_rule_result:
  "upper dotless_i [112, 305, 110] = py ''PIN''
   \<and> triggered_rules (analyze dotless_i (py ''PIN'') (process dotless_i (py ''PIN'') (Some (py ''auto''))))
       = [''sensitive_data_request'']
   \<and> triggered_rules (analyze dotless_i [112, 305, 110]
         (process dotless_i [112, 305, 110] (Some (py ''auto''))))
       = []"
  by code_simp

text \<open>
  C10, amended. The result of the rule analysis does not depend on the language
  information it is given; two messages with the same lower-case form get the same result;
  and whenever the pipeline returns, the triggered rules, the keywords and the rule score
  of its result are those of the rule analysis of the raw message, whatever the language
  hint and the normalised text were (the score rounded to four decimals, as the pipeline
  reports it).
\<close>

theorem rule_analysis_ignores_language_and_case:
  "analyze U m li = analyze U m li'
   \<and> (lower U m = lower U m' \<longrightarrow> analyze U m li = analyze U m' li')
   \<and> (analyze_message S U sha now E m lang = Inr r \<longrightarrow>
        res_triggered_rules r = triggered_rules (analyze U m li)
      \<and> res_highlighted_keywords r = keywords_list (analyze U m li)
      \<and> res_rule_score r = py_round (score (analyze U m li)) 4)"
  using analyze_lower_only [of U m m li li'] analyze_lower_only [of U m m' li li']
    analyze_message_rule_part [of S U sha now E m lang r li]
  by blast

theorem rule_analysis_ignores_language_and_case_witness:
  "analyze ascii_only (py ''Verify OTP now'') (process ascii_only (py ''Verify OTP now'') (Some (py ''auto'')))
     = analyze ascii_only (py ''verify otp NOW'') (process ascii_only (py ''x'') (Some (py ''urdu'')))
   \<and> (\<exists>r. analyze_message no_ml_settings ascii_only sample_sha 0 no_ml_engine
                (py ''Verify OTP now'') (Some (py ''roman_urdu'')) = Inr r
        \<and> res_triggered_rules r
            = triggered_rules (analyze ascii_only (py ''Verify OTP now'')
                (process ascii_only (py ''Verify OTP now'') (Some (py ''auto'')))))"
proof -
  let ?m = "py ''Verify OTP now''"
  let ?li = "process ascii_only ?m (Some (py ''auto''))"
  have low: "lower ascii_only ?m = lower ascii_only (py ''verify otp NOW'')"
    by code_simp
  have off: "ml_detector no_ml_engine = None \<or> \<not> ENABLE_ML no_ml_settings"
    by (simp add: no_ml_engine_def)
  have enc: "\<not> list_ex surrogate ?m"
    by (simp add: surrogate_def py_def)
  have log: "analytics no_ml_engine = None
             \<or> (\<exists>log. analytics no_ml_engine = Some log \<and> (\<forall>r. log r ?m = None))"
    by (simp add: no_ml_engine_def)
  obtain r where run: "analyze_message no_ml_settings ascii_only sample_sha 0 no_ml_engine
                            ?m (Some (py ''roman_urdu'')) = Inr r"
    using analyze_message_no_ml [OF off enc log] by blast
  show ?thesis
    using low run
      rule_analysis_ignores_language_and_case
        [of ascii_only ?m ?li "process ascii_only (py ''x'') (Some (py ''urdu''))"
            "py ''verify otp NOW''" no_ml_settings sample_sha 0 no_ml_engine
            "Some (py ''roman_urdu'')" r]
    by blast
qed

section \<open>The endpoint: rejection and totality\<close>

text \<open>
  C8, as the claim states it, fails on a message that consists of one space: it is not
  empty and not too long, and the endpoint rejects it with status 400.
\<close>

theorem whitespace_message_rejected:
  "analyze_endpoint default_settings ascii_only sample_sha 0 no_ml_engine (py '' '')
       (Some (py ''auto''))
     = Inl (HTTPException 400 MessageEmpty)
   \<and> py '' '' \<noteq> []
   \<and> int (length (py '' '')) \<le> MAX_MESSAGE_LENGTH default_settings"
  by (simp add: analyze_endpoint_def strip_def py_def is_space_def default_settings_def)

text \<open>
  C8, amended. The endpoint rejects a message with status 400 exactly when the message
  is empty or consists of whitespace only, or is longer than the configured maximum. Every
  other message yields a detection result when the classifier is disabled, the language
  hint is a string, the message holds no surrogate code point, and the tracker is absent
  or logs the detection without raising.
\<close>

theorem endpoint_rejects_blank_or_long_else_returns:
  "((\<exists>d. analyze_endpoint S U sha now E m lang = Inl (HTTPException 400 d))
      \<longleftrightarrow> (strip U m = [] \<or> MAX_MESSAGE_LENGTH S < int (length m)))
   \<and> ((ml_detector E = None \<or> \<not> ENABLE_ML S) \<and> lang \<noteq> None
        \<and> \<not> list_ex surrogate m
        \<and> (analytics E = None \<or> (\<exists>log. analytics E = Some log \<and> (\<forall>r. log r m = None)))
        \<and> strip U m \<noteq> [] \<and> int (length m) \<le> MAX_MESSAGE_LENGTH S
      \<longrightarrow> (\<exists>r. analyze_endpoint S U sha now E m lang = Inr r))"
proof (intro conjI impI)
  have e: "strip U [] = []" by (simp add: strip_def)
  show "(\<exists>d. analyze_endpoint S U sha now E m lang = Inl (HTTPException 400 d))
      \<longleftrightarrow> (strip U m = [] \<or> MAX_MESSAGE_LENGTH S < int (length m))"
    using e by (auto simp add: analyze_endpoint_def split: sum.splits)
next
  assume a: "(ml_detector E = None \<or> \<not> ENABLE_ML S) \<and> lang \<noteq> None
        \<and> \<not> list_ex surrogate m
        \<and> (analytics E = None \<or> (\<exists>log. analytics E = Some log \<and> (\<forall>r. log r m = None)))
        \<and> strip U m \<noteq> [] \<and> int (length m) \<le> MAX_MESSAGE_LENGTH S"
  then obtain h where h: "lang = Some h" by auto
  from a have "\<exists>r. analyze_message S U sha now E m (Some h) = Inr r"
    by (intro analyze_message_no_ml) simp_all
  then obtain r where "analyze_message S U sha now E m (Some h) = Inr r" by blast
  with a h show "\<exists>r. analyze_endpoint S U sha now E m lang = Inr r"
    by (auto simp add: analyze_endpoint_def strip_def)
qed

theorem endpoint_rejects_blank_or_long_else_returns_witness:
  "\<not> (\<exists>d. analyze_endpoint no_ml_settings ascii_only sample_sha 0 no_ml_engine (py ''pay now'')
          (Some (py ''auto'')) = Inl (HTTPException 400 d))
   \<and> (\<exists>r. analyze_endpoint no_ml_settings ascii_only sample_sha 0 no_ml_engine (py ''pay now'')
          (Some (py ''auto'')) = Inr r)"
proof -
  have h1: "strip ascii_only (py ''pay now'') \<noteq> []" by code_simp
  have h2: "int (length (py ''pay now'')) \<le> MAX_MESSAGE_LENGTH no_ml_settings"
    by (simp add: no_ml_settings_def default_settings_def py_def)
  have h3: "ml_detector no_ml_engine = None" by (simp add: no_ml_engine_def)
  have h4: "\<not> list_ex surrogate (py ''pay now'')"
    by (simp add: surrogate_def py_def)
  have h5: "analytics no_ml_engine = None
            \<or> (\<exists>log. analytics no_ml_engine = Some log \<and> (\<forall>r. log r (py ''pay now'') = None))"
    by (simp add: no_ml_engine_def)
  show ?thesis
    using endpoint_rejects_blank_or_long_else_returns
        [of no_ml_settings ascii_only sample_sha 0 no_ml_engine "py ''pay now''"
            "Some (py ''auto'')"]
      h1 h2 h3 h4 h5 by simp
qed

section \<open>Computing matches on a concrete text\<close>

lemma seq_cont_Nil: "seq_cont U b p s [] = []"
  by (simp add: seq_cont_def)

lemma seq_cont_Cons:
  "seq_cont U b p s (n # ns)
     = map (\<lambda>m. n + m) (ends U b (prev_after p s n) (drop n s)) @ seq_cont U b p s ns"
  by (simp add: seq_cont_def)

lemma map_add_0: "map (\<lambda>m. (0::nat) + m) xs = xs"
  by (induction xs) auto

lemma ends_Seq_cont: "ends U (Seq (Seq a a') b) p s = seq_cont U b p s (ends U (Seq a a') p s)"
  "ends U (Seq (Alt a a') b) p s = seq_cont U b p s (ends U (Alt a a') p s)"
  "ends U (Seq (Opt a) b) p s = seq_cont U b p s (ends U (Opt a) p s)"
  "ends U (Seq (Rep cs lo hi) b) p s = seq_cont U b p s (ends U (Rep cs lo hi) p s)"
  "ends U (Seq Eps b) p s = ends U b p s"
  by (simp_all add: seq_cont_def prev_after_def map_add_0)

lemma ends_Seq_WordB: "ends U (Seq WordB b) p s = (if boundary U p s then ends U b p s else [])"
  by (simp add: prev_after_def map_add_0)

lemma ends_Seq_Cls:
  "ends U (Seq (Cls cs) b) p [] = []"
  "ends U (Seq (Cls cs) b) p (c # s) = (if in_cset U cs c then map Suc (ends U b (Some c) s) else [])"
  by (simp_all add: prev_after_def)

lemmas ends_eval = ends_Seq_cont ends_Seq_WordB ends_Seq_Cls
  seq_cont_Nil seq_cont_Cons prev_after_def boundary_def word_opt_def first_opt_def
  is_word_def is_digit_def is_space_def wb_def

section \<open>The score of the rule engine\<close>

lemma brand_patterns_score:
  "acc_score (brand_patterns U t c ps a)
     = acc_score a + 0.15 * real (length (filter (matches U t) ps))"
  by (induction ps arbitrary: a) (auto simp add: matches_def split: option.splits)

lemma brand_detection_score:
  "acc_score (brand_detection U t bs a)
     = acc_score a + 0.15 * real (length (filter (matches U t) (concat (map snd bs))))"
  by (induction bs arbitrary: a) (auto simp add: brand_patterns_score algebra_simps)

lemma urgency_detection_score:
  "acc_score (urgency_detection U t a)
     = acc_score a + min (real (length (urgency_matches U t URGENCY_KEYWORDS)) * 0.1) 0.25"
  by (simp add: urgency_detection_def Let_def)

lemma sensitive_detection_score:
  "acc_score (sensitive_detection U t ps a)
     = acc_score a + (if list_ex (matches U t) ps then 0.25 else 0)"
  by (induction ps arbitrary: a) (auto simp add: matches_def split: option.splits)

lemma url_detection_score:
  "acc_score (url_detection U t a)
     = acc_score a + (if matches U t SHORTENED_URL then 0.25 else 0)"
  by (auto simp add: url_detection_def matches_def split: option.splits)

lemma analyze_score:
  "score (analyze U m li)
     = min (0.15 * real (length (filter (matches U (lower U m)) (concat (map snd BRANDS))))
            + min (real (length (urgency_matches U (lower U m) URGENCY_KEYWORDS)) * 0.1) 0.25
            + (if list_ex (matches U (lower U m)) SENSITIVE_DATA then 0.25 else 0)
            + (if matches U (lower U m) SHORTENED_URL then 0.25 else 0)) 1"
  by (simp add: analyze_def Let_def url_detection_score sensitive_detection_score
      urgency_detection_score brand_detection_score)

lemma analyze_score_range:
  "0 \<le> score (analyze U m li) \<and> score (analyze U m li) \<le> 1"
proof -
  define b where "b = 0.15 * real (length (filter (matches U (lower U m)) (concat (map snd BRANDS))))"
  define u where "u = min (real (length (urgency_matches U (lower U m) URGENCY_KEYWORDS)) * 0.1) 0.25"
  define s where "s = (if list_ex (matches U (lower U m)) SENSITIVE_DATA then 0.25 else (0::real))"
  define l where "l = (if matches U (lower U m) SHORTENED_URL then 0.25 else (0::real))"
  have eq: "score (analyze U m li) = min (b + u + s + l) 1"
    unfolding analyze_score b_def u_def s_def l_def ..
  have "0 \<le> b" "0 \<le> u" "0 \<le> s" "0 \<le> l"
    by (simp_all add: b_def u_def s_def l_def)
  then have "0 \<le> b + u + s + l" by linarith
  then show ?thesis unfolding eq by linarith
qed

text \<open>
  C3, as the claim states it, fails on a message that names two brands of one category:
  the brand loop adds 0.15 for every pattern that matches, so \<open>easypaisa jazzcash\<close> scores
  0.30, where one increment per matched category gives 0.15.
\<close>

lemma two_brands_lower: "lower U (py ''easypaisa jazzcash'') = py ''easypaisa jazzcash''"
  by (simp add: lower_def py_def ascii_lower_def)

lemma two_brands_patterns:
  "filter (matches U (py ''easypaisa jazzcash'')) (concat (map snd BRANDS))
     = [wb (lit ''easypaisa''), wb (lit ''jazzcash'')]"
  by (simp add: BRANDS_def matches_def search_def py_def ends_eval del: ends.simps(4))

lemma two_brands_categories:
  "filter (\<lambda>(category, patterns). list_ex (matches U (py ''easypaisa jazzcash'')) patterns) BRANDS
     = [hd BRANDS]"
  by (simp add: BRANDS_def matches_def search_def py_def ends_eval del: ends.simps(4))

lemma two_brands_urgency: "urgency_matches U (py ''easypaisa jazzcash'') URGENCY_KEYWORDS = []"
  by (simp add: URGENCY_KEYWORDS_def finditer_def py_def ends_eval del: ends.simps(4))

lemma two_brands_sensitive: "\<not> list_ex (matches U (py ''easypaisa jazzcash'')) SENSITIVE_DATA"
  by (simp add: SENSITIVE_DATA_def matches_def search_def py_def ends_eval del: ends.simps(4))

lemma two_brands_url: "\<not> matches U (py ''easypaisa jazzcash'') SHORTENED_URL"
  by (simp add: SHORTENED_URL_def matches_def search_def py_def ends_eval del: ends.simps(4))

theorem two_brands_of_one_category_score_twice:
  "score (analyze ascii_only (py ''easypaisa jazzcash'')
       (process ascii_only (py ''easypaisa jazzcash'') (Some (py ''auto'')))) = 0.3
   \<and> spec_rule_score ascii_only (py ''easypaisa jazzcash'') = 0.15"
  by (simp add: analyze_score spec_rule_score_def two_brands_lower two_brands_patterns
      two_brands_categories two_brands_urgency two_brands_sensitive two_brands_url)

text \<open>
  C3, amended. For every message the score of the rule engine is the sum of 0.15 for
  every brand pattern that matches the lower-cased message (several patterns of one
  category count each), of the number of urgency matches times 0.10 capped at 0.25, of
  0.25 when some sensitive-data pattern matches, and of 0.25 when the shortened-URL pattern
  matches, the sum capped at one. The score lies in the unit interval, and the lists of
  triggered rules and of keywords hold no element twice.
\<close>

theorem rule_score_closed_form:
  "score (analyze U m li)
     = min (0.15 * real (length (filter (matches U (lower U m)) (concat (map snd BRANDS))))
            + min (real (length (urgency_matches U (lower U m) URGENCY_KEYWORDS)) * 0.1) 0.25
            + (if list_ex (matches U (lower U m)) SENSITIVE_DATA then 0.25 else 0)
            + (if matches U (lower U m) SHORTENED_URL then 0.25 else 0)) 1
   \<and> 0 \<le> score (analyze U m li) \<and> score (analyze U m li) \<le> 1
   \<and> distinct (triggered_rules (analyze U m li))
   \<and> distinct (keywords_list (analyze U m li))"
proof (intro conjI)
  show "distinct (triggered_rules (analyze U m li))" by (simp add: analyze_def Let_def)
  show "distinct (keywords_list (analyze U m li))" by (simp add: analyze_def Let_def)
qed (use analyze_score analyze_score_range in blast)+

section \<open>The example scenario\<close>

lemma example_lower: "lower U example_message = example_message"
  by (simp add: lower_def example_message_def py_def ascii_lower_def)

lemma example_brand: "brand_detection U example_message BRANDS a
   = a\<lparr>acc_rules := acc_rules a @ [''brand_impersonation_pakistan_financial''],
        acc_score := acc_score a + 0.15,
        acc_keywords := acc_keywords a @ [py ''easypaisa'']\<rparr>"
  by (simp add: BRANDS_def search_def example_message_def py_def ends_eval del: ends.simps(4))

lemma example_urgency: "urgency_matches U example_message URGENCY_KEYWORDS = [py ''urgent'', py ''now'']"
  by (simp add: URGENCY_KEYWORDS_def finditer_def example_message_def py_def ends_eval del: ends.simps(4))

lemma example_sensitive: "sensitive_detection U example_message SENSITIVE_DATA a
   = a\<lparr>acc_rules := acc_rules a @ [''sensitive_data_request''],
        acc_score := acc_score a + 0.25,
        acc_keywords := acc_keywords a @ [py ''otp'']\<rparr>"
  by (simp add: SENSITIVE_DATA_def search_def example_message_def py_def ends_eval del: ends.simps(4))

lemma example_url: "search U SHORTENED_URL example_message = None"
  by (simp add: SHORTENED_URL_def search_def example_message_def py_def ends_eval del: ends.simps(4))

lemma example_analyze: "analyze U example_message li =
   \<lparr>score = 0.6,
    triggered_rules = [''brand_impersonation_pakistan_financial'', ''urgency_language'', ''sensitive_data_request''],
    keywords_list = [py ''easypaisa'', py ''urgent'', py ''now'', py ''otp'']\<rparr>"
  by (simp add: analyze_def example_lower example_brand urgency_detection_def example_urgency
      example_sensitive url_detection_def example_url Let_def py_def)

lemma default_scam_iff:
  "classify default_settings (calculate_final_score default_settings ml 0.6) = SCAM \<longleftrightarrow> 54 / 65 \<le> ml"
  by (auto simp add: classify_def calculate_final_score_def default_settings_def Let_def min_def)

text \<open>
  C2, as the claim states it, fails in its second part: the rule score of the example
  message is 0.60 (0.15 for the brand, 0.20 for the two urgency matches, 0.25 for the
  sensitive-data request), which is below 0.65.
\<close>

theorem example_rule_score_below_claim:
  "score (analyze ascii_only example_message
       (process ascii_only example_message (Some (py ''auto'')))) = 0.6
   \<and> \<not> 0.65 \<le> score (analyze ascii_only example_message
               (process ascii_only example_message (Some (py ''auto''))))"
  by (simp add: example_analyze)

text \<open>
  C2, amended. For the example message the triggered rules are the brand rule of the
  Pakistani financial category, the urgency rule and the sensitive-data rule; the rule
  score is 0.60; and with the default weights and thresholds the classification is
  \<open>SCAM\<close> exactly when the score of the classifier is at least 54/65 (about 0.831).
\<close>

theorem example_message_rules_score_and_class:
  "triggered_rules (analyze U example_message li)
     = [''brand_impersonation_pakistan_financial'', ''urgency_language'', ''sensitive_data_request'']
   \<and> score (analyze U example_message li) = 0.6
   \<and> (classify default_settings
         (calculate_final_score default_settings ml (score (analyze U example_message li))) = SCAM
       \<longleftrightarrow> 54 / 65 \<le> ml)"
  using default_scam_iff [of ml] by (simp add: example_analyze)

theorem example_message_rules_score_and_class_witness:
  "classify default_settings
         (calculate_final_score default_settings 0.9
            (score (analyze ascii_only example_message
               (process ascii_only example_message (Some (py ''auto'')))))) = SCAM"
  using example_message_rules_score_and_class
    [of ascii_only "process ascii_only example_message (Some (py ''auto''))" "0.9"]
  by simp

section \<open>Whole-word matching\<close>

text \<open>Where \<open>re.search\<close> and \<open>re.finditer\<close> find a match, the pattern matches at that position.\<close>

lemma prev_after_0: "prev_after p s 0 = p"
  by (simp add: prev_after_def)

lemma prev_after_Cons_Suc:
  "k \<le> length cs \<Longrightarrow> prev_after p (c # cs) (Suc k) = prev_after (Some c) cs k"
  by (cases k) (auto simp add: prev_after_def)

lemma prev_after_pos:
  assumes "0 < n" "n \<le> length s"
  shows "prev_after p s n = Some (last (take n s))"
proof -
  from assms have ne: "take n s \<noteq> []" by auto
  have "last (take n s) = take n s ! (n - 1)"
    using assms by (simp add: last_conv_nth [OF ne] min_def)
  also have "\<dots> = s ! (n - 1)" using assms by simp
  finally show ?thesis using assms by (simp add: prev_after_def)
qed

lemma plain_ends:
  "plain r \<Longrightarrow> n \<in> set (ends U r p s) \<Longrightarrow> n \<le> length s \<and> take n s \<in> set (words r)"
proof (induction r arbitrary: n p s rule: plain.induct)
  case (5 a b)
  from "5.prems" obtain i j where n: "n = i + j" and i: "i \<in> set (ends U a p s)"
    and j: "j \<in> set (ends U b (prev_after p s i) (drop i s))"
    by auto
  from "5.prems" have pa: "plain a" and pb: "plain b" by simp_all
  from "5.IH"(1) [OF pa i] have ia: "i \<le> length s" "take i s \<in> set (words a)" by simp_all
  from "5.IH"(2) [OF pb j] have jb: "j \<le> length (drop i s)" "take j (drop i s) \<in> set (words b)"
    by simp_all
  have "take n s = take i s @ take j (drop i s)"
    unfolding n by (rule take_add)
  with ia jb n show ?case by auto
qed (auto split: list.splits if_splits)

lemma search_from_Some:
  "search_from U r p i s = Some (j, g) \<Longrightarrow>
     \<exists>k n. k \<le> length s \<and> n \<in> set (ends U r (prev_after p s k) (drop k s)) \<and> g = take n (drop k s)"
proof (induction s arbitrary: p i)
  case Nil
  then obtain n ns where "ends U r p [] = n # ns" and "g = []"
    by (cases "ends U r p []") auto
  then show ?case
    by (intro exI [of _ 0] exI [of _ n]) (simp add: prev_after_0)
next
  case (Cons c cs)
  show ?case
  proof (cases "ends U r p (c # cs)")
    case Nil
    with Cons.prems have "search_from U r (Some c) (Suc i) cs = Some (j, g)" by simp
    from Cons.IH [OF this] obtain k n where "k \<le> length cs"
      "n \<in> set (ends U r (prev_after (Some c) cs k) (drop k cs))" "g = take n (drop k cs)"
      by blast
    then show ?thesis
      by (intro exI [of _ "Suc k"] exI [of _ n]) (simp add: prev_after_Cons_Suc)
  next
    case (Cons n ns)
    with Cons.prems have "g = take n (c # cs)" by simp
    with Cons show ?thesis
      by (intro exI [of _ 0] exI [of _ n]) (simp add: prev_after_0)
  qed
qed

lemma finditer_from_mem:
  "g \<in> set (finditer_from U r p skip s) \<Longrightarrow>
     \<exists>k n. k \<le> length s \<and> n \<in> set (ends U r (prev_after p s k) (drop k s)) \<and> g = take n (drop k s)"
proof (induction s arbitrary: p skip)
  case Nil
  then show ?case by simp
next
  case (Cons c cs)
  have step: "g \<in> set (finditer_from U r (Some c) sk cs) \<Longrightarrow> ?case" for sk
  proof -
    assume "g \<in> set (finditer_from U r (Some c) sk cs)"
    from Cons.IH [OF this] obtain k n where "k \<le> length cs"
      "n \<in> set (ends U r (prev_after (Some c) cs k) (drop k cs))" "g = take n (drop k cs)"
      by blast
    then show ?thesis
      by (intro exI [of _ "Suc k"] exI [of _ n]) (simp add: prev_after_Cons_Suc)
  qed
  show ?case
  proof (cases "0 < skip")
    case True
    with Cons.prems step show ?thesis by simp
  next
    case False
    show ?thesis
    proof (cases "ends U r p (c # cs)")
      case Nil
      with False Cons.prems step show ?thesis by simp
    next
      case (Cons n ns)
      show ?thesis
      proof (cases "g = take n (c # cs) \<and> n \<noteq> 0")
        case True
        with Cons show ?thesis
          by (intro exI [of _ 0] exI [of _ n]) (simp add: prev_after_0)
      next
        case no: False
        with False Cons Cons.prems
        have "g \<in> set (finditer_from U r (Some c) (if n = 0 then 0 else n - 1) cs)"
          by (auto split: if_splits)
        then show ?thesis by (rule step)
      qed
    qed
  qed
qed

lemma is_wb_ends:
  assumes "is_wb r" "n \<in> set (ends U r p s)"
  shows "boundary U p s \<and> boundary U (prev_after p s n) (drop n s)"
proof -
  from assms(1) obtain b where r: "r = Seq WordB (Seq b WordB)"
    by (rule is_wb.elims(2))
  from assms(2) show ?thesis
    unfolding r by (auto simp add: prev_after_0 split: if_splits)
qed

lemma hd_take_pos: "0 < n \<Longrightarrow> hd (take n s) = hd s"
  by (cases s; cases n) auto

lemma first_opt_nonempty: "s \<noteq> [] \<Longrightarrow> first_opt s = Some (hd s)"
  by (cases s) (auto simp add: first_opt_def)

lemma word_pattern_match:
  assumes "word_pattern U r" "k \<le> length text"
    and "n \<in> set (ends U r (prev_after None text k) (drop k text))"
  shows "take n (drop k text) \<in> set (words r)
       \<and> whole_word_at U text k (take n (drop k text))"
proof -
  let ?s = "drop k text"
  let ?p = "prev_after None text k"
  let ?g = "take n ?s"
  from assms(1) have wb: "is_wb r" and pl: "plain r" and kw: "list_all (word_kw U) (words r)"
    by (simp_all add: word_pattern_def)
  from plain_ends [OF pl assms(3)] have n: "n \<le> length ?s" and g: "?g \<in> set (words r)"
    by simp_all
  from kw g have "word_kw U ?g" by (simp add: list_all_iff)
  then have ne: "?g \<noteq> []" and hdw: "is_word U (hd ?g)" and lw: "is_word U (last ?g)"
    unfolding word_kw_def by blast+
  from ne have n0: "0 < n" and sne: "?s \<noteq> []" by auto
  from is_wb_ends [OF wb assms(3)]
  have b1: "boundary U ?p ?s" and b2: "boundary U (prev_after ?p ?s n) (drop n ?s)"
    by simp_all
  have fo: "first_opt ?s = Some (hd ?g)"
    by (simp only: first_opt_nonempty [OF sne] hd_take_pos [OF n0])
  have "word_opt U (Some (hd ?g))" using hdw by (simp add: word_opt_def)
  with b1 have p1: "\<not> word_opt U ?p"
    unfolding boundary_def fo by blast
  have pa: "prev_after ?p ?s n = Some (last ?g)"
    using prev_after_pos [OF n0 n] .
  have "word_opt U (Some (last ?g))" using lw by (simp add: word_opt_def)
  with b2 have p2: "\<not> word_opt U (first_opt (drop n ?s))"
    unfolding boundary_def pa by blast
  have len: "length ?g = n" using n by simp
  have "drop (k + length ?g) text = drop n ?s"
    unfolding len by (simp add: add.commute)
  with p1 p2 len have "whole_word_at U text k ?g"
    by (simp add: whole_word_at_def)
  with g show ?thesis by simp
qed

lemma whole_word_intro:
  "k \<le> length text \<Longrightarrow> whole_word_at U text k kw \<Longrightarrow> whole_word U text kw"
  by (auto simp add: whole_word_def list_ex_iff less_Suc_eq_le simp del: upt_Suc)

lemma matches_whole_word:
  assumes "word_pattern U r" "matches U text r"
  shows "list_ex (whole_word U text) (words r)"
proof -
  from assms(2) obtain j g where "search_from U r None 0 text = Some (j, g)"
    by (auto simp add: matches_def search_def)
  from search_from_Some [OF this] obtain k n where k: "k \<le> length text"
    and n: "n \<in> set (ends U r (prev_after None text k) (drop k text))"
    by blast
  from word_pattern_match [OF assms(1) k n] whole_word_intro [OF k]
  show ?thesis by (auto simp add: list_ex_iff)
qed

lemma finditer_whole_word:
  assumes "word_pattern U r" "finditer U r text \<noteq> []"
  shows "list_ex (whole_word U text) (words r)"
proof -
  from assms(2) obtain g where "g \<in> set (finditer_from U r None 0 text)"
    by (cases "finditer U r text") (auto simp add: finditer_def)
  from finditer_from_mem [OF this] obtain k n where k: "k \<le> length text"
    and n: "n \<in> set (ends U r (prev_after None text k) (drop k text))"
    by blast
  from word_pattern_match [OF assms(1) k n] whole_word_intro [OF k]
  show ?thesis by (auto simp add: list_ex_iff)
qed

lemma brand_patterns_rules:
  "rule \<in> set (acc_rules (brand_patterns U t c ps a)) \<Longrightarrow>
     rule \<in> set (acc_rules a)
     \<or> (rule = ''brand_impersonation_'' @ c \<and> (\<exists>r\<in>set ps. matches U t r))"
proof (induction ps arbitrary: a)
  case Nil
  then show ?case by simp
next
  case (Cons p ps)
  show ?case
  proof (cases "search U p t")
    case None
    with Cons.prems have "rule \<in> set (acc_rules (brand_patterns U t c ps a))" by simp
    from Cons.IH [OF this] show ?thesis by auto
  next
    case (Some ig)
    obtain i g where ig: "ig = (i, g)" by (cases ig)
    let ?a = "a\<lparr>acc_rules := acc_rules a @ [''brand_impersonation_'' @ c],
                 acc_score := acc_score a + 0.15,
                 acc_keywords := acc_keywords a @ [g]\<rparr>"
    from Cons.prems Some ig have "rule \<in> set (acc_rules (brand_patterns U t c ps ?a))" by simp
    from Cons.IH [OF this] Some show ?thesis by (auto simp add: matches_def)
  qed
qed

lemma brand_detection_rules:
  "rule \<in> set (acc_rules (brand_detection U t bs a)) \<Longrightarrow>
     rule \<in> set (acc_rules a)
     \<or> (\<exists>(c, ps)\<in>set bs. rule = ''brand_impersonation_'' @ c \<and> (\<exists>r\<in>set ps. matches U t r))"
proof (induction bs arbitrary: a)
  case Nil
  then show ?case by simp
next
  case (Cons b bs)
  obtain c ps where b: "b = (c, ps)" by (cases b)
  from Cons.prems b
  have "rule \<in> set (acc_rules (brand_detection U t bs (brand_patterns U t c ps a)))" by simp
  from Cons.IH [OF this] brand_patterns_rules [of rule U t c ps a] b
  show ?case by auto
qed

lemma urgency_matches_nonempty:
  "urgency_matches U t ps \<noteq> [] \<Longrightarrow> \<exists>r\<in>set ps. finditer U r t \<noteq> []"
  by (induction ps) auto

lemma urgency_detection_rules:
  "rule \<in> set (acc_rules (urgency_detection U t a)) \<Longrightarrow>
     rule \<in> set (acc_rules a)
     \<or> (rule = ''urgency_language'' \<and> (\<exists>r\<in>set URGENCY_KEYWORDS. finditer U r t \<noteq> []))"
  using urgency_matches_nonempty [of U t URGENCY_KEYWORDS]
  by (auto simp add: urgency_detection_def Let_def split: if_splits)

lemma sensitive_detection_rules:
  "rule \<in> set (acc_rules (sensitive_detection U t ps a)) \<Longrightarrow>
     rule \<in> set (acc_rules a)
     \<or> (rule = ''sensitive_data_request'' \<and> (\<exists>r\<in>set ps. matches U t r))"
  by (induction ps) (auto simp add: matches_def split: option.splits)

lemma url_detection_rules:
  "rule \<in> set (acc_rules (url_detection U t a)) \<Longrightarrow>
     rule \<in> set (acc_rules a) \<or> rule = ''shortened_url''"
  by (auto simp add: url_detection_def split: option.splits)

lemma table_word_patterns:
  "list_all (word_pattern U) (concat (map snd BRANDS) @ URGENCY_KEYWORDS @ SENSITIVE_DATA)"
  by (simp add: BRANDS_def URGENCY_KEYWORDS_def SENSITIVE_DATA_def word_pattern_def word_kw_def
      wb_def is_word_def)

lemma triggered_rule_cases:
  assumes "rule \<in> set (triggered_rules (analyze U m li))"
  shows "(\<exists>(c, ps)\<in>set BRANDS. rule = ''brand_impersonation_'' @ c
            \<and> (\<exists>r\<in>set ps. matches U (lower U m) r))
       \<or> (rule = ''urgency_language''
            \<and> (\<exists>r\<in>set URGENCY_KEYWORDS. finditer U r (lower U m) \<noteq> []))
       \<or> (rule = ''sensitive_data_request''
            \<and> (\<exists>r\<in>set SENSITIVE_DATA. matches U (lower U m) r))
       \<or> rule = ''shortened_url''"
proof -
  let ?t = "lower U m"
  let ?a0 = "\<lparr>acc_rules = [], acc_keywords = [], acc_score = 0\<rparr>"
  let ?a1 = "brand_detection U ?t BRANDS ?a0"
  let ?a2 = "urgency_detection U ?t ?a1"
  let ?a3 = "sensitive_detection U ?t SENSITIVE_DATA ?a2"
  from assms have "rule \<in> set (acc_rules (url_detection U ?t ?a3))"
    by (simp add: analyze_def Let_def)
  from url_detection_rules [OF this]
  consider "rule = ''shortened_url''" | "rule \<in> set (acc_rules ?a3)" by blast
  then show ?thesis
  proof cases
    case 1
    then show ?thesis by simp
  next
    case 2
    from sensitive_detection_rules [OF this]
    consider "rule = ''sensitive_data_request'' \<and> (\<exists>r\<in>set SENSITIVE_DATA. matches U ?t r)"
      | "rule \<in> set (acc_rules ?a2)" by blast
    then show ?thesis
    proof cases
      case 1
      then show ?thesis by blast
    next
      case 2
      from urgency_detection_rules [OF this]
      consider "rule = ''urgency_language'' \<and> (\<exists>r\<in>set URGENCY_KEYWORDS. finditer U r ?t \<noteq> [])"
        | "rule \<in> set (acc_rules ?a1)" by blast
      then show ?thesis
      proof cases
        case 1
        then show ?thesis by blast
      next
        case 2
        from brand_detection_rules [OF this] show ?thesis by simp
      qed
    qed
  qed
qed

lemma whole_word_ruleI:
  "r \<in> set (rule_patterns rule) \<Longrightarrow> list_ex (whole_word U text) (words r)
     \<Longrightarrow> whole_word_rule U text rule"
  by (auto simp add: whole_word_rule_def list_ex_iff)

lemma triggered_word_rule:
  assumes "rule \<in> set (triggered_rules (analyze U m li))" "rule \<noteq> ''shortened_url''"
  shows "whole_word_rule U (lower U m) rule"
proof -
  let ?t = "lower U m"
  have tab: "r \<in> set (concat (map snd BRANDS)) \<union> set URGENCY_KEYWORDS \<union> set SENSITIVE_DATA
               \<Longrightarrow> word_pattern U r" for r
    using table_word_patterns [of U] by (auto simp add: list_all_iff)
  from triggered_rule_cases [OF assms(1)] assms(2)
  consider (brand) c ps r where "(c, ps) \<in> set BRANDS" "rule = ''brand_impersonation_'' @ c"
        "r \<in> set ps" "matches U ?t r"
    | (urgency) r where "rule = ''urgency_language''" "r \<in> set URGENCY_KEYWORDS"
        "finditer U r ?t \<noteq> []"
    | (sensitive) r where "rule = ''sensitive_data_request''" "r \<in> set SENSITIVE_DATA"
        "matches U ?t r"
    by blast
  then show ?thesis
  proof cases
    case brand
    then have "r \<in> set (concat (map snd BRANDS))" by force
    then have wp: "word_pattern U r" using tab by blast
    from brand have "r \<in> set (rule_patterns rule)"
      by (force simp add: rule_patterns_def)
    with matches_whole_word [OF wp brand(4)] show ?thesis by (rule whole_word_ruleI [rotated])
  next
    case urgency
    then have wp: "word_pattern U r" using tab by blast
    from urgency have "r \<in> set (rule_patterns rule)" by (simp add: rule_patterns_def)
    with finditer_whole_word [OF wp urgency(3)] show ?thesis by (rule whole_word_ruleI [rotated])
  next
    case sensitive
    then have wp: "word_pattern U r" using tab by blast
    from sensitive have "r \<in> set (rule_patterns rule)" by (simp add: rule_patterns_def)
    with matches_whole_word [OF wp sensitive(3)] show ?thesis by (rule whole_word_ruleI [rotated])
  qed
qed

text \<open>
  C4, as the claim states it, fails for the shortened-URL pattern, which has no word
  boundaries: in the one-word message \<open>xtinyurlx\<close> the keyword \<open>tinyurl\<close> occurs strictly
  inside a longer word, no keyword of the rule occurs as a whole word, and the rule is
  triggered.
\<close>

theorem url_keyword_inside_word_triggers:
  "''shortened_url'' \<in> set (triggered_rules (analyze ascii_only (py ''xtinyurlx'')
        (process ascii_only (py ''xtinyurlx'') (Some (py ''auto'')))))
   \<and> \<not> whole_word_rule ascii_only (lower ascii_only (py ''xtinyurlx'')) ''shortened_url''"
  by code_simp

text \<open>
  C4, amended. The triggered rules depend only on the lower-case form of the message, so
  that two messages with the same lower-case form trigger the same rules; and a brand
  rule, the urgency rule or the sensitive-data rule is triggered only when one of the
  keywords of its patterns occurs in the lower-cased message as a whole word, between
  characters that are not word characters or the ends of the message. (The shortened-URL
  rule is the exception.)
\<close>

theorem word_rules_need_whole_word:
  "(lower U m = lower U m' \<longrightarrow>
       triggered_rules (analyze U m li) = triggered_rules (analyze U m' li'))
   \<and> (rule \<in> set (triggered_rules (analyze U m li)) \<and> rule \<noteq> ''shortened_url'' \<longrightarrow>
       whole_word_rule U (lower U m) rule)"
  using analyze_lower_only [of U m m' li li'] triggered_word_rule [of rule U m li]
  by auto

theorem word_rules_need_whole_word_witness:
  "triggered_rules (analyze ascii_only (py ''Send OTP'') (process ascii_only (py ''Send OTP'') (Some (py ''auto''))))
     = triggered_rules (analyze ascii_only (py ''send otp'') (process ascii_only (py ''send otp'') (Some (py ''auto''))))
   \<and> whole_word_rule ascii_only (lower ascii_only (py ''Send OTP'')) ''sensitive_data_request''"
proof -
  let ?m = "py ''Send OTP''"
  let ?li = "process ascii_only ?m (Some (py ''auto''))"
  have low: "lower ascii_only ?m = lower ascii_only (py ''send otp'')"
    by code_simp
  have trig: "''sensitive_data_request'' \<in> set (triggered_rules (analyze ascii_only ?m ?li))"
    by code_simp
  have ne: "''sensitive_data_request'' \<noteq> ''shortened_url''"
    by simp
  show ?thesis
    using low trig ne
      word_rules_need_whole_word [of ascii_only ?m "py ''send otp''" ?li
        "process ascii_only (py ''send otp'') (Some (py ''auto''))" "''sensitive_data_request''"]
    by blast
qed

end
